theory Spec2Isabelle
  imports Main "HOL-Library.Sublist" "HOL-Library.Multiset"
begin

section \<open>Data model\<close>

text \<open>
  An image descriptor, as \<^verbatim>\<open>_set_images\<close> builds it: a dict with the keys
  \<^verbatim>\<open>id\<close>, \<^verbatim>\<open>index\<close>, \<^verbatim>\<open>file_name\<close>, \<^verbatim>\<open>category_ids\<close> and \<^verbatim>\<open>regressions\<close>.
  The key \<^verbatim>\<open>id\<close> is the field \<open>image_id\<close> (\<open>id\<close> is the identity function of HOL)
  and the key \<^verbatim>\<open>regressions\<close> is the field \<open>image_regressions\<close>. Python's
  \<^verbatim>\<open>None\<close> in the two link fields is \<open>None\<close>; the links are kept as identifiers.
\<close>

record AiImage =
  image_id :: string
  index :: int
  file_name :: string
  category_ids :: "string list option"
  image_regressions :: "string list option"

text \<open>
  The keyword arguments of an invocation (\<^verbatim>\<open>**net_input\<close>): \<^verbatim>\<open>files\<close>,
  \<^verbatim>\<open>images\<close> and, in \<open>kwargs\<close>, the named inputs under any other name. \<open>None\<close>
  in the first two stands for a key that is absent
  (the parameter then takes its default \<^verbatim>\<open>[]\<close>) and for an explicit \<^verbatim>\<open>None\<close>:
  the code only ever tests such a value for truthiness before it uses it.
\<close>

record 'v net_input =
  files :: "string list option"
  images :: "AiImage list option"
  kwargs :: "string \<rightharpoonup> 'v"

text \<open>Every \<^verbatim>\<open>raise\<close> of the module, and the exceptions of the built-ins it calls.\<close>

datatype error =
    Exception_not_matched string
      \<comment> \<open>\<^verbatim>\<open>Exception(f"Filename {file} not matched.")\<close>\<close>
  | ValueError_not_supported nat nat
      \<comment> \<open>\<^verbatim>\<open>ValueError("Input number of `files`(..) and `images`(..) not supported.")\<close>\<close>
  | ValueError_different_amount
      \<comment> \<open>\<^verbatim>\<open>ValueError("`self.images` and `modified_filenames` have different amount of elements.")\<close>\<close>
  | ValueError_not_in_list string
      \<comment> \<open>raised by \<^verbatim>\<open>files.index(file)\<close> when \<^verbatim>\<open>file\<close> is not in \<^verbatim>\<open>files\<close>\<close>
  | ValueError_should_be_matched
      \<comment> \<open>\<^verbatim>\<open>ValueError("Each element of `images` and `modified_filenames` should be matched.")\<close>\<close>
  | IndexError
      \<comment> \<open>raised by \<^verbatim>\<open>self.images[i]\<close> out of range\<close>
  | TypeError_len_None
      \<comment> \<open>raised by \<^verbatim>\<open>len(self.images)\<close> when the attribute is \<^verbatim>\<open>None\<close>\<close>
  | ValueError_images_None
      \<comment> \<open>\<^verbatim>\<open>ValueError("`self.images` should not be None.")\<close>\<close>
  | ValidationError
      \<comment> \<open>pydantic's \<^verbatim>\<open>ValidationError\<close>: re-raised from \<^verbatim>\<open>AiImage.model_validate\<close>,
          or raised by the construction of the input data model\<close>
  | TypeError_modified_filenames
      \<comment> \<open>\<^verbatim>\<open>TypeError("`modified_filenames` should have type of `Sequence`.")\<close>\<close>
  | TypeError_multiple_values
      \<comment> \<open>raised by a call that gets the keyword \<^verbatim>\<open>modified_filenames\<close> twice\<close>
  | AssertionError
      \<comment> \<open>the failed \<^verbatim>\<open>assert images or files\<close> of \<^verbatim>\<open>check_images_files\<close>\<close>
  | Raised string
      \<comment> \<open>an exception raised inside an extension point, propagated unchanged\<close>

datatype py_class = PyException | PyValueError | PyTypeError | PyIndexError | PyValidationError | PyAssertionError | PyOther

fun error_class :: "error \<Rightarrow> py_class" where
  "error_class (Exception_not_matched f) = PyException"
| "error_class (ValueError_not_supported n m) = PyValueError"
| "error_class ValueError_different_amount = PyValueError"
| "error_class (ValueError_not_in_list f) = PyValueError"
| "error_class ValueError_should_be_matched = PyValueError"
| "error_class IndexError = PyIndexError"
| "error_class TypeError_len_None = PyTypeError"
| "error_class ValueError_images_None = PyValueError"
| "error_class ValidationError = PyValidationError"
| "error_class TypeError_modified_filenames = PyTypeError"
| "error_class TypeError_multiple_values = PyTypeError"
| "error_class AssertionError = PyAssertionError"
| "error_class (Raised m) = PyOther"

text \<open>
  What an invocation reads and writes besides its result: the attribute
  \<^verbatim>\<open>self.images\<close> (\<open>None\<close> before the first assignment), the identifiers that the
  successive calls of nanoid's \<^verbatim>\<open>generate()\<close> are going to return, the messages
  passed to \<^verbatim>\<open>warnings.warn\<close> and those passed to \<^verbatim>\<open>logging.error\<close>.
\<close>

record model_state =
  self_images :: "AiImage list option"
  nanoid :: "nat \<Rightarrow> string"
  warnings :: "string list"
  logging :: "string list"

definition generate :: "model_state \<Rightarrow> string \<times> model_state" where
  "generate s = (nanoid s 0, s\<lparr>nanoid := (\<lambda>n. nanoid s (Suc n))\<rparr>)"

section \<open>Reconciliation: \<^verbatim>\<open>_set_images\<close>\<close>

text \<open>Truthiness of an optional sequence: \<^verbatim>\<open>None\<close> and \<^verbatim>\<open>[]\<close> are false.\<close>

fun truthy :: "'a list option \<Rightarrow> bool" where
  "truthy None = False"
| "truthy (Some xs) = (xs \<noteq> [])"

text \<open>\<^verbatim>\<open>s.replace("/", "_")\<close>\<close>

definition replace_slash :: "string \<Rightarrow> string" where
  "replace_slash s = map (\<lambda>c. if c = CHR ''/'' then CHR ''_'' else c) s"

text \<open>
  The condition of the generator expression,
  \<^verbatim>\<open>format_image["file_name"].replace("/", "_") in file\<close>: Python's \<^verbatim>\<open>in\<close> on
  strings is the contiguous-substring test, \<^const>\<open>sublist\<close>.
\<close>

definition matches :: "string \<Rightarrow> AiImage \<Rightarrow> bool" where
  "matches file format_image = sublist (replace_slash (file_name format_image)) file"

text \<open>
  The loop \<^verbatim>\<open>for file in files: self.images.append(next(...))\<close>. \<^verbatim>\<open>next\<close> takes the
  first image of \<^verbatim>\<open>images\<close> that satisfies the condition; on \<^verbatim>\<open>StopIteration\<close> the
  loop stops with the exception and \<^verbatim>\<open>self.images\<close> keeps what was appended so far.
\<close>

fun match_files :: "string list \<Rightarrow> AiImage list \<Rightarrow> AiImage list \<Rightarrow> error option \<times> AiImage list" where
  "match_files [] imgs acc = (None, acc)"
| "match_files (file # rest) imgs acc =
     (case find (matches file) imgs of
        None \<Rightarrow> (Some (Exception_not_matched file), acc)
      | Some format_image \<Rightarrow> match_files rest imgs (acc @ [format_image]))"

text \<open>
  The loop of the files-only branch: one call of \<^verbatim>\<open>generate()\<close> per file, and the
  literal \<^verbatim>\<open>"index": 0\<close> of the source.
\<close>

fun synthesize :: "string list \<Rightarrow> AiImage list \<Rightarrow> model_state \<Rightarrow> AiImage list \<times> model_state" where
  "synthesize [] acc s = (acc, s)"
| "synthesize (file # rest) acc s =
     (case generate s of (new_id, s') \<Rightarrow>
        synthesize rest
          (acc @ [\<lparr>image_id = new_id, index = 0, file_name = file,
                   category_ids = None, image_regressions = None\<rparr>]) s')"

definition set_images :: "model_state \<Rightarrow> 'v net_input \<Rightarrow> (error + unit) \<times> model_state" where
  "set_images s inp =
     (let s0 = s\<lparr>self_images := Some []\<rparr> in
      if truthy (files inp) \<and> truthy (images inp) then
        (let fs = the (files inp); imgs = the (images inp) in
         if length fs = length imgs then
           (case match_files fs imgs [] of
              (Some e, acc) \<Rightarrow> (Inl e, s0\<lparr>self_images := Some acc\<rparr>)
            | (None, acc) \<Rightarrow> (Inr (), s0\<lparr>self_images := Some acc\<rparr>))
         else if length fs = 1 \<and> length imgs > 1 then
           (Inr (), s0\<lparr>self_images := Some imgs\<rparr>)
         else
           (Inl (ValueError_not_supported (length fs) (length imgs)), s0))
      else if truthy (files inp) \<and> \<not> truthy (images inp) then
        (case synthesize (the (files inp)) [] s0 of
           (acc, s1) \<Rightarrow> (Inr (), s1\<lparr>self_images := Some acc\<rparr>))
      else if \<not> truthy (files inp) \<and> truthy (images inp) then
        (Inr (), s0\<lparr>self_images := images inp\<rparr>)
      else
        (Inr (), s0\<lparr>warnings := warnings s0 @ [''`files` and `images` not specified.'']\<rparr>))"

section \<open>Re-ordering: \<^verbatim>\<open>_update_images\<close>\<close>

text \<open>\<^verbatim>\<open>files.index(file)\<close>: the first position of \<^verbatim>\<open>file\<close>, \<open>None\<close> where Python raises.\<close>

fun list_index :: "string list \<Rightarrow> string \<Rightarrow> nat option" where
  "list_index [] file = None"
| "list_index (f # fs) file =
     (if f = file then Some 0 else map_option Suc (list_index fs file))"

text \<open>The loop \<^verbatim>\<open>for file in modified_filenames: updated_indices.append(files.index(file))\<close>.\<close>

fun updated_indices :: "string list \<Rightarrow> string list \<Rightarrow> error + nat list" where
  "updated_indices fs [] = Inr []"
| "updated_indices fs (file # rest) =
     (case list_index fs file of
        None \<Rightarrow> Inl (ValueError_not_in_list file)
      | Some i \<Rightarrow>
          (case updated_indices fs rest of
             Inl e \<Rightarrow> Inl e
           | Inr idxs \<Rightarrow> Inr (i # idxs)))"

text \<open>The comprehension \<^verbatim>\<open>[self.images[i] for i in updated_indices]\<close>.\<close>

fun reindex :: "AiImage list \<Rightarrow> nat list \<Rightarrow> error + AiImage list" where
  "reindex imgs [] = Inr []"
| "reindex imgs (i # idxs) =
     (if i < length imgs then
        (case reindex imgs idxs of
           Inl e \<Rightarrow> Inl e
         | Inr out \<Rightarrow> Inr (imgs ! i # out))
      else Inl IndexError)"

definition update_images ::
  "model_state \<Rightarrow> 'v net_input \<Rightarrow> string list option \<Rightarrow> (error + unit) \<times> model_state" where
  "update_images s inp modified_filenames =
     (if modified_filenames \<noteq> None \<and> truthy (files inp) then
        (case self_images s of
           None \<Rightarrow> (Inl TypeError_len_None, s)
         | Some imgs \<Rightarrow>
             if length imgs \<noteq> length (the modified_filenames) then
               (Inl ValueError_different_amount, s)
             else
               (case updated_indices (the (files inp)) (the modified_filenames) of
                  Inl e \<Rightarrow> (Inl e, s)
                | Inr idxs \<Rightarrow>
                    if length imgs \<noteq> length idxs then (Inl ValueError_should_be_matched, s)
                    else
                      (case reindex imgs idxs of
                         Inl e \<Rightarrow> (Inl e, s)
                       | Inr out \<Rightarrow> (Inr (), s\<lparr>self_images := Some out\<rparr>))))
      else (Inr (), s))"

text \<open>
  The re-ordering as the specification words it, to compare \<open>update_images\<close> with:
  element \<open>j\<close> of the result is the element of \<^verbatim>\<open>images\<close> at the position that
  \<^verbatim>\<open>modified_filenames[j]\<close> holds in \<^verbatim>\<open>files\<close>.
\<close>

definition reapply_order_spec :: "AiImage list \<Rightarrow> string list \<Rightarrow> string list \<Rightarrow> AiImage list" where
  "reapply_order_spec imgs fs modified_filenames =
     map (\<lambda>name. imgs ! the (list_index fs name)) modified_filenames"

section \<open>The pipeline: \<^verbatim>\<open>__call__\<close>\<close>

text \<open>
  The second component of what \<^verbatim>\<open>data_reader\<close> returns: \<^verbatim>\<open>None\<close>, a sequence of
  file names, or a value that is not a \<^verbatim>\<open>Sequence\<close>.
\<close>

datatype modified = MNone | MSeq "string list" | MNotSequence

text \<open>
  What a concrete model supplies: the two abstract methods, the three methods with a
  default, the attributes \<^verbatim>\<open>self.categories\<close> and \<^verbatim>\<open>self.regressions\<close> fixed at
  construction, and \<^verbatim>\<open>AiImage.model_validate\<close> (the schema lives in
  \<^verbatim>\<open>flavor.serve.models\<close>; here it is a parameter, \<open>False\<close> where it raises
  \<^verbatim>\<open>ValidationError\<close>). The type \<open>'v\<close> is Python's \<^verbatim>\<open>Any\<close>; a method returns
  \<open>Inl\<close> of a message where it raises.
\<close>

record ('v, 'c, 'g, 'res) extension =
  data_reader :: "'v net_input \<Rightarrow> string + ('v \<times> modified \<times> 'v)"
  preprocess :: "'v \<Rightarrow> string + 'v"
  inference :: "'v \<Rightarrow> string + 'v"
  postprocess :: "'v \<Rightarrow> 'v \<Rightarrow> string + 'v"
  output_formatter :: "'v \<Rightarrow> AiImage list option \<Rightarrow> 'c list option \<Rightarrow> 'g list option \<Rightarrow> string + 'res"
  categories :: "'c list option"
  regressions :: "'g list option"
  model_validate :: "AiImage \<Rightarrow> bool"

fun raised :: "string + 'a \<Rightarrow> error + 'a" where
  "raised (Inl m) = Inl (Raised m)"
| "raised (Inr x) = Inr x"

fun and_then :: "error + 'a \<Rightarrow> ('a \<Rightarrow> error + 'b) \<Rightarrow> error + 'b" where
  "and_then (Inl e) f = Inl e"
| "and_then (Inr x) f = f x"

text \<open>
  The tail of \<^verbatim>\<open>__call__\<close>, from \<^verbatim>\<open>preprocess\<close> to the returned
  \<^verbatim>\<open>output_formatter(out, images=self.images, categories=..., regressions=...)\<close>.
\<close>

definition run_stages ::
  "('v, 'c, 'g, 'res) extension \<Rightarrow> model_state \<Rightarrow> 'v \<Rightarrow> 'v \<Rightarrow> error + 'res" where
  "run_stages ext s data metadata =
     and_then (raised (preprocess ext data)) (\<lambda>x.
     and_then (raised (inference ext x)) (\<lambda>out.
     and_then (raised (postprocess ext out metadata)) (\<lambda>out'.
     raised (output_formatter ext out' (self_images s) (categories ext) (regressions ext)))))"

fun as_optional :: "modified \<Rightarrow> string list option" where
  "as_optional (MSeq xs) = Some xs"
| "as_optional m = None"

text \<open>
  The call \<^verbatim>\<open>self._update_images(modified_filenames=modified_filenames, **net_input)\<close>:
  when \<^verbatim>\<open>net_input\<close> has a key \<^verbatim>\<open>modified_filenames\<close> of its own, Python raises a
  \<^verbatim>\<open>TypeError\<close> (multiple values for the keyword argument) before the method runs.
\<close>

definition call_update_images ::
  "model_state \<Rightarrow> 'v net_input \<Rightarrow> string list option \<Rightarrow> (error + unit) \<times> model_state" where
  "call_update_images s inp modified_filenames =
     (if kwargs inp ''modified_filenames'' \<noteq> None then (Inl TypeError_multiple_values, s)
      else update_images s inp modified_filenames)"

text \<open>
  \<^verbatim>\<open>__call__\<close>. The branch \<^verbatim>\<open>isinstance(self.images, Sequence)\<close> has no \<open>else\<close>
  here: \<open>self_images\<close> holds a list whenever it is not \<open>None\<close>.
\<close>

definition call ::
  "('v, 'c, 'g, 'res) extension \<Rightarrow> model_state \<Rightarrow> 'v net_input \<Rightarrow> (error + 'res) \<times> model_state" where
  "call ext s inp =
     (case set_images s inp of
        (Inl e, s1) \<Rightarrow> (Inl e, s1)
      | (Inr u, s1) \<Rightarrow>
          (case self_images s1 of
             None \<Rightarrow> (Inl ValueError_images_None, s1)
           | Some imgs \<Rightarrow>
               if \<not> list_all (model_validate ext) imgs then
                 (Inl ValidationError,
                  s1\<lparr>logging := logging s1 @
                     [''Each element of `self.images` should have format of `AiImage`.'']\<rparr>)
               else
                 (case data_reader ext inp of
                    Inl m \<Rightarrow> (Inl (Raised m), s1)
                  | Inr (data, modified_filenames, metadata) \<Rightarrow>
                      if modified_filenames = MNotSequence then
                        (Inl TypeError_modified_filenames, s1)
                      else
                        (case call_update_images s1 inp (as_optional modified_filenames) of
                           (Inl e, s2) \<Rightarrow> (Inl e, s2)
                         | (Inr u, s2) \<Rightarrow> (run_stages ext s2 data metadata, s2)))))"

section \<open>The annotation output\<close>

text \<open>
  Modelled from the spec: the output schema \<^verbatim>\<open>AiCOCOFormat\<close> of
  \<^verbatim>\<open>flavor.serve.models\<close>, which is not among the sources. The spec gives its root
  fields (images, annotations, categories, regressions, objects, meta), says that
  annotations reference image ids and that objects link to categories and regressions,
  and asks that every such reference resolves to an entry of the top-level list.
\<close>

record AiAnnotation =
  annotation_id :: string
  annotation_image_id :: string

record AiCategory =
  category_id :: string
  category_name :: string

record AiRegression =
  regression_id :: string
  regression_name :: string

record AiObject =
  object_id :: string
  object_category_ids :: "string list option"
  object_regressions :: "string list option"

record AnnotationOutput =
  out_images :: "AiImage list"
  out_annotations :: "AiAnnotation list"
  out_categories :: "AiCategory list"
  out_regressions :: "AiRegression list"
  out_objects :: "AiObject list"
  out_meta :: "(string \<times> string) list"

fun resolves :: "string list option \<Rightarrow> string list \<Rightarrow> bool" where
  "resolves None ids = True"
| "resolves (Some refs) ids = list_all (\<lambda>r. r \<in> set ids) refs"

definition schema_valid :: "AnnotationOutput \<Rightarrow> bool" where
  "schema_valid out =
     (let image_ids = map image_id (out_images out);
          cat_ids = map category_id (out_categories out);
          reg_ids = map regression_id (out_regressions out)
      in list_all (\<lambda>a. annotation_image_id a \<in> set image_ids) (out_annotations out)
       \<and> list_all (\<lambda>ob. resolves (object_category_ids ob) cat_ids
                       \<and> resolves (object_regressions ob) reg_ids) (out_objects out)
       \<and> list_all (\<lambda>im. resolves (category_ids im) cat_ids
                       \<and> resolves (image_regressions im) reg_ids) (out_images out))"

section \<open>The input data model\<close>

text \<open>
  The raw \<^verbatim>\<open>data\<close> that the \<^verbatim>\<open>mode="before"\<close> validator receives: a dict from
  field names to values. A value is \<^verbatim>\<open>None\<close>, a sequence of image descriptors, a
  sequence of uploaded files (of a type \<open>'u\<close>), or anything else (\<open>'v\<close>).
\<close>

datatype ('u, 'v) py_value = PyNone | PyImages "AiImage list" | PyFiles "'u list" | PyAny 'v

text \<open>
  Python's truth value; that of a value of \<open>'v\<close> is given by the parameter \<open>tv\<close>.
\<close>

fun py_bool :: "('v \<Rightarrow> bool) \<Rightarrow> ('u, 'v) py_value \<Rightarrow> bool" where
  "py_bool tv PyNone = False"
| "py_bool tv (PyImages xs) = (xs \<noteq> [])"
| "py_bool tv (PyFiles xs) = (xs \<noteq> [])"
| "py_bool tv (PyAny v) = tv v"

text \<open>\<^verbatim>\<open>data.get(key, None)\<close>\<close>

definition dict_get :: "(string \<rightharpoonup> ('u, 'v) py_value) \<Rightarrow> string \<Rightarrow> ('u, 'v) py_value" where
  "dict_get data key = (case data key of None \<Rightarrow> PyNone | Some v \<Rightarrow> v)"

definition check_images_files ::
  "('v \<Rightarrow> bool) \<Rightarrow> (string \<rightharpoonup> ('u, 'v) py_value) \<Rightarrow> error + (string \<rightharpoonup> ('u, 'v) py_value)" where
  "check_images_files tv data =
     (let images = dict_get data ''images'';
          files = dict_get data ''files''
      in if py_bool tv images \<or> py_bool tv files then Inr data else Inl AssertionError)"

text \<open>
  The fields \<^verbatim>\<open>images: Optional[Sequence[AiImage]] = None\<close> and
  \<^verbatim>\<open>files: Optional[Sequence[UploadFile]] = None\<close> of the base class, which keeps
  no other key of \<^verbatim>\<open>data\<close>.
\<close>

record 'u BaseAiCOCOImageInputDataModel =
  model_images :: "AiImage list option"
  model_files :: "'u list option"

text \<open>
  The validation of the two declared fields, which is pydantic's: \<^verbatim>\<open>None\<close> and a
  sequence of the declared element type pass (an empty sequence is one of either type),
  any other value raises \<^verbatim>\<open>ValidationError\<close>.
\<close>

fun field_images :: "('u, 'v) py_value \<Rightarrow> error + AiImage list option" where
  "field_images PyNone = Inr None"
| "field_images (PyImages xs) = Inr (Some xs)"
| "field_images (PyFiles xs) = (if xs = [] then Inr (Some []) else Inl ValidationError)"
| "field_images (PyAny v) = Inl ValidationError"

fun field_files :: "('u, 'v) py_value \<Rightarrow> error + 'u list option" where
  "field_files PyNone = Inr None"
| "field_files (PyFiles xs) = Inr (Some xs)"
| "field_files (PyImages xs) = (if xs = [] then Inr (Some []) else Inl ValidationError)"
| "field_files (PyAny v) = Inl ValidationError"

text \<open>
  Construction: the validator runs first; its \<^verbatim>\<open>AssertionError\<close> reaches the caller
  as a \<^verbatim>\<open>ValidationError\<close>. Then the two declared fields are read from
  \<^verbatim>\<open>data\<close> and validated.
\<close>

definition construct ::
  "('v \<Rightarrow> bool) \<Rightarrow> (string \<rightharpoonup> ('u, 'v) py_value) \<Rightarrow> error + 'u BaseAiCOCOImageInputDataModel" where
  "construct tv data =
     (case check_images_files tv data of
        Inl e \<Rightarrow> Inl ValidationError
      | Inr d \<Rightarrow>
          and_then (field_images (dict_get d ''images'')) (\<lambda>imgs.
          and_then (field_files (dict_get d ''files'')) (\<lambda>fls.
          Inr \<lparr>model_images = imgs, model_files = fls\<rparr>)))"

section \<open>The image list of the Gradio front end\<close>

text \<open>
  \<^verbatim>\<open>GradioInferAPP.invocations\<close> builds one descriptor per file as well, with
  \<^verbatim>\<open>"index": idx\<close> taken from \<^verbatim>\<open>enumerate(files)\<close>.
\<close>

fun gradio_images :: "string list \<Rightarrow> int \<Rightarrow> model_state \<Rightarrow> AiImage list \<times> model_state" where
  "gradio_images [] idx s = ([], s)"
| "gradio_images (file # rest) idx s =
     (case generate s of (new_id, s') \<Rightarrow>
        (case gradio_images rest (idx + 1) s' of (imgs, s'') \<Rightarrow>
           (\<lparr>image_id = new_id, index = idx, file_name = file,
             category_ids = None, image_regressions = None\<rparr> # imgs, s'')))"

section \<open>Concrete inputs\<close>

text \<open>A generator whose successive identifiers are \<open>id\<close>, \<open>id+\<close>, \<open>id++\<close>, ...\<close>

definition ids :: "nat \<Rightarrow> string" where
  "ids n = ''id'' @ replicate n CHR ''+''"

definition init_state :: model_state where
  "init_state = \<lparr>self_images = None, nanoid = ids, warnings = [], logging = []\<rparr>"

definition img :: "string \<Rightarrow> int \<Rightarrow> AiImage" where
  "img name i = \<lparr>image_id = name, index = i, file_name = name,
                 category_ids = None, image_regressions = None\<rparr>"

definition no_kwargs :: "string \<rightharpoonup> unit" where
  "no_kwargs = Map.empty"

text \<open>
  A concrete model: a reader that reports no re-ordering, the default \<^verbatim>\<open>preprocess\<close>
  and \<^verbatim>\<open>postprocess\<close>, a network that returns its input, and a formatter that lists
  the images it is given, their links cleared, and nothing else.
\<close>

definition unlinked :: "AiImage \<Rightarrow> AiImage" where
  "unlinked im = im\<lparr>category_ids := None, image_regressions := None\<rparr>"

definition list_images :: "AiImage list option \<Rightarrow> AnnotationOutput" where
  "list_images imgs =
     \<lparr>out_images = map unlinked (case imgs of None \<Rightarrow> [] | Some xs \<Rightarrow> xs),
      out_annotations = [], out_categories = [], out_regressions = [],
      out_objects = [], out_meta = []\<rparr>"

definition example_model :: "(unit, unit, unit, AnnotationOutput) extension" where
  "example_model =
     \<lparr>data_reader = (\<lambda>inp. Inr ((), MNone, ())),
      preprocess = (\<lambda>data. Inr data),
      inference = (\<lambda>x. Inr x),
      postprocess = (\<lambda>out metadata. Inr out),
      output_formatter = (\<lambda>out imgs cats regs. Inr (list_images imgs)),
      categories = None,
      regressions = None,
      model_validate = (\<lambda>im. True)\<rparr>"

text \<open>
  The same model with a formatter that adds one annotation on an image that is not in
  its output.
\<close>

definition dangling_model :: "(unit, unit, unit, AnnotationOutput) extension" where
  "dangling_model =
     example_model\<lparr>output_formatter := (\<lambda>out imgs cats regs.
        Inr ((list_images imgs)
               \<lparr>out_annotations := [\<lparr>annotation_id = ''a0'', annotation_image_id = ''missing''\<rparr>]\<rparr>))\<rparr>"

section \<open>Reconciliation: properties\<close>

lemma truthy_iff: "truthy xs \<longleftrightarrow> (\<exists>ys. xs = Some ys \<and> ys \<noteq> [])"
  by (cases xs) auto

lemma match_files_all:
  "\<forall>f\<in>set fs. \<exists>im\<in>set imgs. matches f im \<Longrightarrow>
   match_files fs imgs acc = (None, acc @ map (\<lambda>f. the (find (matches f) imgs)) fs)"
proof (induction fs arbitrary: acc)
  case Nil
  then show ?case by simp
next
  case (Cons f fs)
  from Cons.prems obtain im where "find (matches f) imgs = Some im"
    by (cases "find (matches f) imgs") (auto simp: find_None_iff)
  with Cons show ?case by simp
qed

lemma match_files_some:
  "\<not> (\<forall>f\<in>set fs. \<exists>im\<in>set imgs. matches f im) \<Longrightarrow>
   \<exists>f acc'. match_files fs imgs acc = (Some (Exception_not_matched f), acc')
      \<and> f \<in> set fs \<and> (\<forall>im\<in>set imgs. \<not> matches f im)"
proof (induction fs arbitrary: acc)
  case Nil
  then show ?case by simp
next
  case (Cons f fs)
  show ?case
  proof (cases "find (matches f) imgs")
    case None
    then have "\<forall>im\<in>set imgs. \<not> matches f im" by (simp add: find_None_iff)
    with None show ?thesis by auto
  next
    case (Some im)
    then have "\<exists>im\<in>set imgs. matches f im" by (auto simp: find_Some_iff)
    with Cons.prems have "\<not> (\<forall>f\<in>set fs. \<exists>im\<in>set imgs. matches f im)" by auto
    from Cons.IH[OF this, of "acc @ [im]"] Some show ?thesis by auto
  qed
qed

lemma find_matches_the:
  "\<exists>im\<in>set imgs. matches f im \<Longrightarrow>
   the (find (matches f) imgs) \<in> set imgs \<and> matches f (the (find (matches f) imgs))"
proof -
  assume "\<exists>im\<in>set imgs. matches f im"
  then obtain im where im: "find (matches f) imgs = Some im"
    by (cases "find (matches f) imgs") (auto simp: find_None_iff)
  then have "im \<in> set imgs \<and> matches f im"
    by (auto simp: find_Some_iff)
  with im show ?thesis by simp
qed

lemma synthesize_eq:
  "synthesize fs acc s =
     (acc @ map (\<lambda>i. \<lparr>image_id = nanoid s i, index = 0, file_name = fs ! i,
                      category_ids = None, image_regressions = None\<rparr>) [0..<length fs],
      s\<lparr>nanoid := (\<lambda>n. nanoid s (n + length fs))\<rparr>)"
proof (induction fs arbitrary: acc s)
  case Nil
  then show ?case by simp
next
  case (Cons f fs)
  have upt: "[0..<Suc (length fs)] = 0 # map Suc [0..<length fs]"
    by (simp add: upt_conv_Cons map_Suc_upt del: upt_Suc)
  show ?case
    by (simp add: generate_def Cons.IH upt comp_def del: upt_Suc)
qed

text \<open>
  Claim C1. For non-empty \<^verbatim>\<open>files\<close> and \<^verbatim>\<open>images\<close> of equal length: if every
  file contains the normalised \<^verbatim>\<open>file_name\<close> (\<^verbatim>\<open>/\<close> replaced by \<^verbatim>\<open>_\<close>) of some
  descriptor, \<^verbatim>\<open>_set_images\<close> returns with \<^verbatim>\<open>self.images\<close> as long as \<^verbatim>\<open>files\<close>,
  its i-th entry a descriptor of \<^verbatim>\<open>images\<close> whose normalised \<^verbatim>\<open>file_name\<close> is a
  substring of the i-th file; otherwise it raises the "not matched" exception for a
  file that no descriptor matches.
\<close>

theorem set_images_equal_length:
  assumes "fs \<noteq> []" and "imgs \<noteq> []" and "length fs = length imgs"
  shows "if \<forall>f\<in>set fs. \<exists>im\<in>set imgs. sublist (replace_slash (file_name im)) f
         then \<exists>out. set_images s \<lparr>files = Some fs, images = Some imgs, kwargs = kw\<rparr>
                       = (Inr (), s\<lparr>self_images := Some out\<rparr>)
                \<and> length out = length fs
                \<and> (\<forall>i<length fs. out ! i \<in> set imgs
                       \<and> sublist (replace_slash (file_name (out ! i))) (fs ! i))
         else \<exists>f\<in>set fs. (\<forall>im\<in>set imgs. \<not> sublist (replace_slash (file_name im)) f)
                \<and> fst (set_images s \<lparr>files = Some fs, images = Some imgs, kwargs = kw\<rparr>)
                    = Inl (Exception_not_matched f)"
proof (cases "\<forall>f\<in>set fs. \<exists>im\<in>set imgs. matches f im")
  case True
  let ?out = "map (\<lambda>f. the (find (matches f) imgs)) fs"
  have run: "match_files fs imgs [] = (None, ?out)"
    using match_files_all[OF True, of "[]"] by simp
  have "set_images s \<lparr>files = Some fs, images = Some imgs, kwargs = kw\<rparr>
          = (Inr (), s\<lparr>self_images := Some ?out\<rparr>)"
    using assms run by (simp add: set_images_def Let_def)
  moreover have "\<forall>i<length fs. ?out ! i \<in> set imgs \<and> matches (fs ! i) (?out ! i)"
    using True find_matches_the by simp
  ultimately show ?thesis using True by (auto simp: matches_def)
next
  case False
  from match_files_some[OF False, of "[]"] obtain f acc' where
    f: "match_files fs imgs [] = (Some (Exception_not_matched f), acc')"
       "f \<in> set fs" "\<forall>im\<in>set imgs. \<not> matches f im" by blast
  have "fst (set_images s \<lparr>files = Some fs, images = Some imgs, kwargs = kw\<rparr>)
          = Inl (Exception_not_matched f)"
    using assms f(1) by (simp add: set_images_def Let_def)
  with f False show ?thesis by (auto simp: matches_def)
qed

theorem set_images_equal_length_witness:
  "[''b.png'', ''a.png''] \<noteq> [] \<and> [img ''a'' 0, img ''b'' 1] \<noteq> []
   \<and> length [''b.png'', ''a.png''] = length [img ''a'' 0, img ''b'' 1]
   \<and> set_images init_state
        \<lparr>files = Some [''b.png'', ''a.png''], images = Some [img ''a'' 0, img ''b'' 1],
         kwargs = no_kwargs\<rparr>
       = (Inr (), init_state\<lparr>self_images := Some [img ''b'' 1, img ''a'' 0]\<rparr>)"
  using set_images_equal_length
    [of "[''b.png'', ''a.png'']" "[img ''a'' 0, img ''b'' 1]" init_state no_kwargs]
  by (simp add: set_images_def matches_def replace_slash_def sublist_code img_def)

text \<open>
  Claim C4. For non-empty \<^verbatim>\<open>files\<close> and \<^verbatim>\<open>images\<close> of different lengths, other
  than one file with several images, \<^verbatim>\<open>_set_images\<close> raises the \<^verbatim>\<open>ValueError\<close>
  "Input number of `files` and `images` not supported".
\<close>

theorem set_images_unsupported_lengths:
  assumes "fs \<noteq> []" and "imgs \<noteq> []" and "length fs \<noteq> length imgs"
    and "\<not> (length fs = 1 \<and> length imgs > 1)"
  shows "fst (set_images s \<lparr>files = Some fs, images = Some imgs, kwargs = kw\<rparr>)
           = Inl (ValueError_not_supported (length fs) (length imgs))
         \<and> error_class (ValueError_not_supported (length fs) (length imgs)) = PyValueError"
  using assms by (simp add: set_images_def Let_def)

theorem set_images_unsupported_lengths_witness:
  "[''x'', ''y''] \<noteq> [] \<and> [img ''x'' 0] \<noteq> []
   \<and> length [''x'', ''y''] \<noteq> length [img ''x'' 0]
   \<and> \<not> (length [''x'', ''y''] = 1 \<and> length [img ''x'' 0] > 1)
   \<and> fst (set_images init_state
        \<lparr>files = Some [''x'', ''y''], images = Some [img ''x'' 0], kwargs = no_kwargs\<rparr>)
       = Inl (ValueError_not_supported 2 1)"
  using set_images_unsupported_lengths
    [of "[''x'', ''y'']" "[img ''x'' 0]" init_state no_kwargs]
  by simp

text \<open>
  Claim C6. When \<^verbatim>\<open>files\<close> holds exactly one name and \<^verbatim>\<open>images\<close> holds more than
  one descriptor, \<^verbatim>\<open>_set_images\<close> returns normally and \<^verbatim>\<open>self.images\<close> is
  \<^verbatim>\<open>images\<close> itself: the same elements in the same order.
\<close>

theorem set_images_single_file_many_images:
  assumes "length fs = 1" and "length imgs > 1"
  shows "set_images s \<lparr>files = Some fs, images = Some imgs, kwargs = kw\<rparr>
           = (Inr (), s\<lparr>self_images := Some imgs\<rparr>)"
  using assms by (auto simp: set_images_def Let_def)

theorem set_images_single_file_many_images_witness:
  "length [''vol.dcm''] = 1 \<and> length [img ''s0'' 0, img ''s1'' 1, img ''s2'' 2] > 1
   \<and> set_images init_state
        \<lparr>files = Some [''vol.dcm''], images = Some [img ''s0'' 0, img ''s1'' 1, img ''s2'' 2],
         kwargs = no_kwargs\<rparr>
       = (Inr (), init_state\<lparr>self_images := Some [img ''s0'' 0, img ''s1'' 1, img ''s2'' 2]\<rparr>)"
  using set_images_single_file_many_images
    [of "[''vol.dcm'']" "[img ''s0'' 0, img ''s1'' 1, img ''s2'' 2]" init_state no_kwargs]
  by simp

section \<open>Re-ordering: properties\<close>

lemma list_index_None: "list_index fs x = None \<longleftrightarrow> x \<notin> set fs"
  by (induction fs) auto

lemma list_index_Some:
  "list_index fs x = Some i \<Longrightarrow> i < length fs \<and> fs ! i = x"
  by (induction fs arbitrary: i) (auto split: if_splits)

lemma list_index_the:
  "x \<in> set fs \<Longrightarrow> the (list_index fs x) < length fs \<and> fs ! the (list_index fs x) = x"
  by (cases "list_index fs x") (auto simp: list_index_None dest: list_index_Some)

lemma list_index_distinct:
  "distinct fs \<Longrightarrow> i < length fs \<Longrightarrow> list_index fs (fs ! i) = Some i"
proof (induction fs arbitrary: i)
  case Nil
  then show ?case by simp
next
  case (Cons f fs)
  then show ?case by (cases i) auto
qed

lemma updated_indices_all:
  "set ms \<subseteq> set fs \<Longrightarrow>
   updated_indices fs ms = Inr (map (\<lambda>name. the (list_index fs name)) ms)"
proof (induction ms)
  case Nil
  then show ?case by simp
next
  case (Cons m ms)
  then obtain i where "list_index fs m = Some i"
    by (cases "list_index fs m") (auto simp: list_index_None)
  with Cons show ?case by simp
qed

lemma updated_indices_missing:
  "\<not> set ms \<subseteq> set fs \<Longrightarrow> \<exists>name. updated_indices fs ms = Inl (ValueError_not_in_list name)"
proof (induction ms)
  case Nil
  then show ?case by simp
next
  case (Cons m ms)
  show ?case
  proof (cases "list_index fs m")
    case None
    then show ?thesis by simp
  next
    case (Some i)
    then have "m \<in> set fs" using list_index_None[of fs m] by auto
    with Cons.prems have "\<not> set ms \<subseteq> set fs" by auto
    from Cons.IH[OF this] Some show ?thesis by auto
  qed
qed

lemma reindex_all:
  "\<forall>i\<in>set idxs. i < length imgs \<Longrightarrow> reindex imgs idxs = Inr (map (\<lambda>i. imgs ! i) idxs)"
  by (induction idxs) auto

lemma update_images_permutation:
  assumes "files inp = Some fs" and "self_images s = Some imgs"
    and "set ms \<subseteq> set fs" and "length imgs = length ms" and "length imgs = length fs"
  shows "update_images s inp (Some ms)
           = (Inr (), s\<lparr>self_images := Some (reapply_order_spec imgs fs ms)\<rparr>)"
proof (cases "fs = []")
  case True
  with assms have "ms = []" "imgs = []" by auto
  with True assms show ?thesis
    by (simp add: update_images_def reapply_order_spec_def)
next
  case False
  have idx: "updated_indices fs ms = Inr (map (\<lambda>name. the (list_index fs name)) ms)"
    using assms(3) by (rule updated_indices_all)
  have "\<forall>i\<in>set (map (\<lambda>name. the (list_index fs name)) ms). i < length imgs"
    using assms(3,5) list_index_the by auto
  then have "reindex imgs (map (\<lambda>name. the (list_index fs name)) ms)
               = Inr (map (\<lambda>i. imgs ! i) (map (\<lambda>name. the (list_index fs name)) ms))"
    by (rule reindex_all)
  with idx False assms show ?thesis
    by (simp add: update_images_def reapply_order_spec_def comp_def)
qed

lemma reapply_order_spec_files:
  assumes "distinct fs" and "length imgs = length fs"
  shows "reapply_order_spec imgs fs fs = imgs"
  using assms by (auto simp: reapply_order_spec_def list_index_distinct intro!: nth_equalityI)

lemma reapply_order_spec_mset:
  assumes "distinct fs" and "length imgs = length fs" and "mset ms = mset fs"
  shows "mset (reapply_order_spec imgs fs ms) = mset imgs"
proof -
  have "mset (reapply_order_spec imgs fs ms)
          = image_mset (\<lambda>name. imgs ! the (list_index fs name)) (mset ms)"
    by (simp add: reapply_order_spec_def)
  also have "\<dots> = mset (reapply_order_spec imgs fs fs)"
    by (simp add: assms(3) reapply_order_spec_def)
  finally show ?thesis using reapply_order_spec_files[OF assms(1,2)] by simp
qed

lemma reapply_order_spec_inverse:
  assumes "distinct fs" and "length imgs = length fs" and "mset ms = mset fs"
  shows "reapply_order_spec (reapply_order_spec imgs fs ms) ms fs = imgs"
proof (rule nth_equalityI)
  show "length (reapply_order_spec (reapply_order_spec imgs fs ms) ms fs) = length imgs"
    using assms by (simp add: reapply_order_spec_def)
next
  fix i assume "i < length (reapply_order_spec (reapply_order_spec imgs fs ms) ms fs)"
  then have i: "i < length fs" by (simp add: reapply_order_spec_def)
  have sets: "set ms = set fs" using assms(3) by (metis set_mset_mset)
  from i have "fs ! i \<in> set ms" using sets by simp
  from list_index_the[OF this]
  have j: "the (list_index ms (fs ! i)) < length ms" "ms ! the (list_index ms (fs ! i)) = fs ! i"
    by simp_all
  have "reapply_order_spec (reapply_order_spec imgs fs ms) ms fs ! i
          = reapply_order_spec imgs fs ms ! the (list_index ms (fs ! i))"
    using i by (simp add: reapply_order_spec_def)
  also have "\<dots> = imgs ! the (list_index fs (ms ! the (list_index ms (fs ! i))))"
    using j(1) by (simp add: reapply_order_spec_def)
  also have "\<dots> = imgs ! i"
    using j(2) list_index_distinct[OF assms(1) i] by simp
  finally show "reapply_order_spec (reapply_order_spec imgs fs ms) ms fs ! i = imgs ! i" .
qed

text \<open>
  Claim C2, as amended. Let \<^verbatim>\<open>files\<close> be given and \<^verbatim>\<open>self.images\<close> be bound.
  If \<^verbatim>\<open>modified_filenames\<close> is a permutation of \<^verbatim>\<open>files\<close> and there are as many
  images as files, \<^verbatim>\<open>_update_images\<close> returns and element \<open>j\<close> of the new
  \<^verbatim>\<open>self.images\<close> is the image at the first position of \<^verbatim>\<open>modified_filenames[j]\<close>
  in \<^verbatim>\<open>files\<close>. If moreover no file name occurs twice, the result is a permutation
  of the images, it pairs every image with the file it was paired with before, and
  re-ordering once more with \<^verbatim>\<open>files\<close> and \<^verbatim>\<open>modified_filenames\<close> exchanged
  restores the original list. If \<^verbatim>\<open>files\<close> is not empty and either the number of
  images differs from the number of modified file names or a modified file name is
  not in \<^verbatim>\<open>files\<close>, a \<^verbatim>\<open>ValueError\<close> is raised. If \<^verbatim>\<open>files\<close> is empty, the
  method returns without an error and changes nothing.
\<close>

theorem update_images_reorder:
  assumes "files inp = Some fs" and "self_images s = Some imgs"
  shows "(mset ms = mset fs \<and> length imgs = length fs \<longrightarrow>
            update_images s inp (Some ms)
              = (Inr (), s\<lparr>self_images := Some (reapply_order_spec imgs fs ms)\<rparr>)
          \<and> (distinct fs \<longrightarrow>
                mset (reapply_order_spec imgs fs ms) = mset imgs
              \<and> (\<forall>j<length ms. \<forall>i<length fs. fs ! i = ms ! j \<longrightarrow>
                     reapply_order_spec imgs fs ms ! j = imgs ! i)
              \<and> update_images (s\<lparr>self_images := Some (reapply_order_spec imgs fs ms)\<rparr>)
                    (inp\<lparr>files := Some ms\<rparr>) (Some fs)
                  = (Inr (), s\<lparr>self_images := Some imgs\<rparr>)))
       \<and> (fs \<noteq> [] \<and> (length imgs \<noteq> length ms \<or> \<not> set ms \<subseteq> set fs) \<longrightarrow>
            (\<exists>e. fst (update_images s inp (Some ms)) = Inl e \<and> error_class e = PyValueError))
       \<and> (fs = [] \<longrightarrow> update_images s inp (Some ms) = (Inr (), s))"
proof (intro conjI impI)
  assume a: "mset ms = mset fs \<and> length imgs = length fs"
  then have sets: "set ms = set fs" and len: "length ms = length fs"
    by (metis set_mset_mset, metis size_mset)
  from a sets len show "update_images s inp (Some ms)
      = (Inr (), s\<lparr>self_images := Some (reapply_order_spec imgs fs ms)\<rparr>)"
    using update_images_permutation[OF assms, of ms] by simp
  assume d: "distinct fs"
  from d a show "mset (reapply_order_spec imgs fs ms) = mset imgs"
    by (simp add: reapply_order_spec_mset)
  show "\<forall>j<length ms. \<forall>i<length fs. fs ! i = ms ! j \<longrightarrow>
           reapply_order_spec imgs fs ms ! j = imgs ! i"
  proof (intro allI impI)
    fix j i assume "j < length ms" and i: "i < length fs" and eq: "fs ! i = ms ! j"
    from list_index_distinct[OF d i] eq have "list_index fs (ms ! j) = Some i" by simp
    with \<open>j < length ms\<close> show "reapply_order_spec imgs fs ms ! j = imgs ! i"
      by (simp add: reapply_order_spec_def)
  qed
  have "update_images (s\<lparr>self_images := Some (reapply_order_spec imgs fs ms)\<rparr>)
          (inp\<lparr>files := Some ms\<rparr>) (Some fs)
        = (Inr (), s\<lparr>self_images := Some (reapply_order_spec imgs fs ms)\<rparr>
                    \<lparr>self_images := Some (reapply_order_spec (reapply_order_spec imgs fs ms) ms fs)\<rparr>)"
    by (rule update_images_permutation)
       (use sets len a in \<open>simp_all add: reapply_order_spec_def\<close>)
  then show "update_images (s\<lparr>self_images := Some (reapply_order_spec imgs fs ms)\<rparr>)
          (inp\<lparr>files := Some ms\<rparr>) (Some fs) = (Inr (), s\<lparr>self_images := Some imgs\<rparr>)"
    using reapply_order_spec_inverse[of fs imgs ms] d a by simp
next
  assume e: "fs \<noteq> [] \<and> (length imgs \<noteq> length ms \<or> \<not> set ms \<subseteq> set fs)"
  show "\<exists>e. fst (update_images s inp (Some ms)) = Inl e \<and> error_class e = PyValueError"
  proof (cases "length imgs \<noteq> length ms")
    case True
    with e assms have "fst (update_images s inp (Some ms)) = Inl ValueError_different_amount"
      by (simp add: update_images_def)
    then show ?thesis by simp
  next
    case False
    with e have "\<not> set ms \<subseteq> set fs" by simp
    from updated_indices_missing[OF this] obtain name where
      "updated_indices fs ms = Inl (ValueError_not_in_list name)" by blast
    with e False assms have "fst (update_images s inp (Some ms)) = Inl (ValueError_not_in_list name)"
      by (simp add: update_images_def)
    then show ?thesis by simp
  qed
next
  assume "fs = []"
  with assms(1) show "update_images s inp (Some ms) = (Inr (), s)"
    by (simp add: update_images_def)
qed

theorem update_images_reorder_witness:
  "files \<lparr>files = Some [''x'', ''y''], images = None, kwargs = no_kwargs\<rparr> = Some [''x'', ''y'']
   \<and> self_images (init_state\<lparr>self_images := Some [img ''x'' 0, img ''y'' 1]\<rparr>)
        = Some [img ''x'' 0, img ''y'' 1]
   \<and> mset [''y'', ''x''] = mset [''x'', ''y'']
   \<and> length [img ''x'' 0, img ''y'' 1] = length [''x'', ''y'']
   \<and> distinct [''x'', ''y'']
   \<and> update_images (init_state\<lparr>self_images := Some [img ''x'' 0, img ''y'' 1]\<rparr>)
        \<lparr>files = Some [''x'', ''y''], images = None, kwargs = no_kwargs\<rparr> (Some [''y'', ''x''])
       = (Inr (), init_state\<lparr>self_images := Some [img ''y'' 1, img ''x'' 0]\<rparr>)
   \<and> update_images (init_state\<lparr>self_images := Some [img ''y'' 1, img ''x'' 0]\<rparr>)
        \<lparr>files = Some [''y'', ''x''], images = None, kwargs = no_kwargs\<rparr> (Some [''x'', ''y''])
       = (Inr (), init_state\<lparr>self_images := Some [img ''x'' 0, img ''y'' 1]\<rparr>)
   \<and> [''x'', ''y''] \<noteq> []
   \<and> \<not> set [''z'', ''x''] \<subseteq> set [''x'', ''y'']
   \<and> fst (update_images (init_state\<lparr>self_images := Some [img ''x'' 0, img ''y'' 1]\<rparr>)
        \<lparr>files = Some [''x'', ''y''], images = None, kwargs = no_kwargs\<rparr> (Some [''z'', ''x'']))
       = Inl (ValueError_not_in_list ''z'')
   \<and> files \<lparr>files = Some [], images = Some [img ''p'' 0], kwargs = no_kwargs\<rparr> = Some []
   \<and> update_images (init_state\<lparr>self_images := Some [img ''p'' 0]\<rparr>)
        \<lparr>files = Some [], images = Some [img ''p'' 0], kwargs = no_kwargs\<rparr> (Some [''q''])
       = (Inr (), init_state\<lparr>self_images := Some [img ''p'' 0]\<rparr>)"
  using update_images_reorder
          [where inp = "\<lparr>files = Some [''x'', ''y''], images = None, kwargs = no_kwargs\<rparr>"
             and fs = "[''x'', ''y'']" and imgs = "[img ''x'' 0, img ''y'' 1]"
             and s = "init_state\<lparr>self_images := Some [img ''x'' 0, img ''y'' 1]\<rparr>"
             and ms = "[''y'', ''x'']"]
        update_images_reorder
          [where inp = "\<lparr>files = Some [''x'', ''y''], images = None, kwargs = no_kwargs\<rparr>"
             and fs = "[''x'', ''y'']" and imgs = "[img ''x'' 0, img ''y'' 1]"
             and s = "init_state\<lparr>self_images := Some [img ''x'' 0, img ''y'' 1]\<rparr>"
             and ms = "[''z'', ''x'']"]
        update_images_reorder
          [where inp = "\<lparr>files = Some [], images = Some [img ''p'' 0], kwargs = no_kwargs\<rparr>"
             and fs = "[]" and imgs = "[img ''p'' 0]"
             and s = "init_state\<lparr>self_images := Some [img ''p'' 0]\<rparr>"
             and ms = "[''q'']"]
  by (simp add: update_images_def reapply_order_spec_def)


text \<open>
  The claim as first stated fails in two places. With the file name \<open>a\<close> given twice
  and the identity as the permutation, the images \<open>p, q\<close> become \<open>p, p\<close>, and no
  second re-ordering brings \<open>q\<close> back. With \<^verbatim>\<open>files\<close> empty the method returns
  without an error although one image stands against no modified file name.
\<close>

theorem update_images_reorder_counterexample:
  "mset [''a'', ''a''] = mset [''a'', ''a'']
   \<and> length [img ''p'' 0, img ''q'' 1] = length [''a'', ''a'']
   \<and> update_images (init_state\<lparr>self_images := Some [img ''p'' 0, img ''q'' 1]\<rparr>)
        \<lparr>files = Some [''a'', ''a''], images = None, kwargs = no_kwargs\<rparr> (Some [''a'', ''a''])
       = (Inr (), init_state\<lparr>self_images := Some [img ''p'' 0, img ''p'' 0]\<rparr>)
   \<and> update_images (init_state\<lparr>self_images := Some [img ''p'' 0, img ''p'' 0]\<rparr>)
        \<lparr>files = Some [''a'', ''a''], images = None, kwargs = no_kwargs\<rparr> (Some [''a'', ''a''])
       = (Inr (), init_state\<lparr>self_images := Some [img ''p'' 0, img ''p'' 0]\<rparr>)
   \<and> [img ''p'' 0, img ''p'' 0] \<noteq> [img ''p'' 0, img ''q'' 1]
   \<and> length [img ''p'' 0] \<noteq> length ([] :: string list)
   \<and> update_images (init_state\<lparr>self_images := Some [img ''p'' 0]\<rparr>)
        \<lparr>files = Some [], images = Some [img ''p'' 0], kwargs = no_kwargs\<rparr> (Some [])
       = (Inr (), init_state\<lparr>self_images := Some [img ''p'' 0]\<rparr>)"
  by (simp add: update_images_def img_def)

section \<open>The pipeline: properties\<close>

lemma set_images_files_only:
  assumes "fs \<noteq> []" and "\<not> truthy imgs"
  shows "set_images s \<lparr>files = Some fs, images = imgs, kwargs = kw\<rparr>
          = (Inr (),
             s\<lparr>self_images :=
                 Some (map (\<lambda>i. \<lparr>image_id = nanoid s i, index = 0, file_name = fs ! i,
                                   category_ids = None, image_regressions = None\<rparr>)
                         [0..<length fs]),
               nanoid := (\<lambda>n. nanoid s (n + length fs))\<rparr>)"
  using assms by (simp add: set_images_def synthesize_eq)

lemma match_files_error:
  "match_files fs imgs acc = (Some e, acc') \<Longrightarrow> \<exists>f. e = Exception_not_matched f"
  by (induction fs arbitrary: acc) (auto split: option.splits)

lemma set_images_warnings:
  "warnings (snd (set_images s inp))
     = (if truthy (files inp) \<or> truthy (images inp) then warnings s
        else warnings s @ [''`files` and `images` not specified.''])"
  by (auto simp: set_images_def Let_def synthesize_eq split: prod.splits option.splits)

lemma set_images_bound:
  "self_images (snd (set_images s inp)) \<noteq> None"
  by (auto simp: set_images_def Let_def synthesize_eq truthy_iff split: prod.splits option.splits)

lemma set_images_errors:
  "fst (set_images s inp) = Inl e \<Longrightarrow>
     (\<exists>f. e = Exception_not_matched f) \<or> (\<exists>n m. e = ValueError_not_supported n m)"
  by (auto simp: set_images_def Let_def synthesize_eq split: prod.splits option.splits if_splits
           dest: match_files_error)

lemma updated_indices_errors:
  "updated_indices fs ms = Inl e \<Longrightarrow> \<exists>f. e = ValueError_not_in_list f"
  by (induction ms arbitrary: e) (auto split: option.splits sum.splits)

lemma reindex_errors:
  "reindex imgs idxs = Inl e \<Longrightarrow> e = IndexError"
  by (induction idxs arbitrary: e) (auto split: sum.splits if_splits)

lemma update_images_errors:
  "fst (update_images s inp m) = Inl e \<Longrightarrow>
     e \<in> {TypeError_len_None, ValueError_different_amount, ValueError_should_be_matched, IndexError}
     \<or> (\<exists>f. e = ValueError_not_in_list f)"
  by (auto simp: update_images_def split: option.splits sum.splits if_splits
           dest: updated_indices_errors reindex_errors)

lemma call_update_images_errors:
  "fst (call_update_images s inp m) = Inl e \<Longrightarrow>
     e \<in> {TypeError_len_None, ValueError_different_amount, ValueError_should_be_matched,
            IndexError, TypeError_multiple_values}
     \<or> (\<exists>f. e = ValueError_not_in_list f)"
  using update_images_errors[of s inp m e]
  by (auto simp: call_update_images_def split: if_splits)

lemma run_stages_errors:
  "run_stages ext s d m = Inl e \<Longrightarrow> \<exists>msg. e = Raised msg"
  unfolding run_stages_def
  by (cases "preprocess ext d"; cases "inference ext (projr (preprocess ext d))";
      cases "postprocess ext (projr (inference ext (projr (preprocess ext d)))) m";
      cases "output_formatter ext (projr (postprocess ext (projr (inference ext (projr (preprocess ext d)))) m))
               (self_images s) (categories ext) (regressions ext)")
     auto

lemma call_errors:
  "fst (call ext s inp) = Inl e \<Longrightarrow>
     (\<exists>f. e = Exception_not_matched f) \<or> (\<exists>n m. e = ValueError_not_supported n m)
     \<or> e \<in> {TypeError_len_None, ValueError_different_amount, ValueError_should_be_matched,
              IndexError, ValidationError, TypeError_modified_filenames, TypeError_multiple_values}
     \<or> (\<exists>f. e = ValueError_not_in_list f) \<or> (\<exists>msg. e = Raised msg)"
proof -
  assume a: "fst (call ext s inp) = Inl e"
  obtain r1 s1 where s1: "set_images s inp = (r1, s1)" by (cases "set_images s inp")
  show ?thesis
  proof (cases r1)
    case (Inl e1)
    with a s1 have "e = e1" by (simp add: call_def)
    moreover from s1 Inl have "fst (set_images s inp) = Inl e1" by simp
    ultimately show ?thesis using set_images_errors[of s inp e1] by blast
  next
    case (Inr u)
    from s1 set_images_bound[of s inp] obtain imgs where imgs: "self_images s1 = Some imgs"
      by auto
    show ?thesis
    proof (cases "list_all (model_validate ext) imgs")
      case False
      with a s1 Inr imgs show ?thesis by (simp add: call_def)
    next
      case True
      show ?thesis
      proof (cases "data_reader ext inp")
        case (Inl m)
        with a s1 Inr imgs True have "e = Raised m" by (simp add: call_def)
        then show ?thesis by blast
      next
        case rd: (Inr t)
        obtain d mf md where t: "t = (d, mf, md)" by (cases t)
        show ?thesis
        proof (cases "mf = MNotSequence")
          case True
          with a s1 Inr imgs \<open>list_all (model_validate ext) imgs\<close> rd t show ?thesis
            by (simp add: call_def)
        next
          case False
          obtain r2 s2 where s2: "call_update_images s1 inp (as_optional mf) = (r2, s2)"
            by (cases "call_update_images s1 inp (as_optional mf)")
          show ?thesis
          proof (cases r2)
            case (Inl e2)
            with a s1 Inr imgs \<open>list_all (model_validate ext) imgs\<close> rd t False s2
            have "e = e2" by (simp add: call_def)
            moreover from s2 Inl have "fst (call_update_images s1 inp (as_optional mf)) = Inl e2" by simp
            ultimately show ?thesis using call_update_images_errors[of s1 inp "as_optional mf" e2] by auto
          next
            case (Inr u2)
            with a s1 \<open>r1 = Inr u\<close> imgs \<open>list_all (model_validate ext) imgs\<close> rd t False s2
            have "run_stages ext s2 d md = Inl e" by (simp add: call_def)
            from run_stages_errors[OF this] show ?thesis by blast
          qed
        qed
      qed
    qed
  qed
qed

lemma update_images_warnings:
  "warnings (snd (update_images s inp m)) = warnings s"
  by (simp add: update_images_def split: option.splits sum.splits)

lemma call_update_images_warnings:
  "warnings (snd (call_update_images s inp m)) = warnings s"
  by (simp add: call_update_images_def update_images_warnings)

lemma call_warnings:
  "warnings (snd (call ext s inp)) = warnings (snd (set_images s inp))"
proof -
  obtain r1 s1 where s1: "set_images s inp = (r1, s1)" by (cases "set_images s inp")
  show ?thesis
  proof (cases r1)
    case (Inl e1)
    with s1 show ?thesis by (simp add: call_def)
  next
    case (Inr u)
    have "warnings (snd (case data_reader ext inp of
                    Inl m \<Rightarrow> (Inl (Raised m), s1)
                  | Inr (data, modified_filenames, metadata) \<Rightarrow>
                      if modified_filenames = MNotSequence then
                        (Inl TypeError_modified_filenames, s1)
                      else
                        (case call_update_images s1 inp (as_optional modified_filenames) of
                           (Inl e, s2) \<Rightarrow> (Inl e, s2)
                         | (Inr u, s2) \<Rightarrow> (run_stages ext s2 data metadata, s2)))) = warnings s1"
      using call_update_images_warnings[of s1 inp]
      by (auto split: sum.splits prod.splits) (metis snd_conv)+
    with s1 Inr show ?thesis
      by (simp add: call_def split: option.splits)
  qed
qed

lemma gradio_images_example:
  "fst (gradio_images [''a.png'', ''b.png''] 0 init_state)
     = [\<lparr>image_id = ''id'', index = 0, file_name = ''a.png'',
         category_ids = None, image_regressions = None\<rparr>,
        \<lparr>image_id = ''id+'', index = 1, file_name = ''b.png'',
         category_ids = None, image_regressions = None\<rparr>]"
  by (simp add: generate_def init_state_def ids_def)

text \<open>
  Claim C5. For non-empty \<^verbatim>\<open>files\<close> and no \<^verbatim>\<open>images\<close>, \<^verbatim>\<open>_set_images\<close>
  synthesises one descriptor per file, in the order of \<^verbatim>\<open>files\<close>, with a newly
  generated \<^verbatim>\<open>id\<close>, the file as \<^verbatim>\<open>file_name\<close> and null links (lemma
  \<open>set_images_files_only\<close>). The claim also asks for the index \<open>i\<close> in the i-th
  descriptor. The code writes \<^verbatim>\<open>"index": 0\<close> in every descriptor: for the two files
  below both descriptors have index 0, where \<^verbatim>\<open>GradioInferAPP.invocations\<close> numbers
  its descriptors 0, 1 (lemma \<open>gradio_images_example\<close>).
\<close>

theorem files_only_index_always_zero:
  "set_images init_state \<lparr>files = Some [''a.png'', ''b.png''], images = None, kwargs = no_kwargs\<rparr>
     = (Inr (),
        \<lparr>self_images = Some [\<lparr>image_id = ''id'', index = 0, file_name = ''a.png'',
                               category_ids = None, image_regressions = None\<rparr>,
                              \<lparr>image_id = ''id+'', index = 0, file_name = ''b.png'',
                               category_ids = None, image_regressions = None\<rparr>],
         nanoid = (\<lambda>n. ids (Suc (Suc n))), warnings = [], logging = []\<rparr>)"
  by (simp add: set_images_def generate_def init_state_def ids_def)

text \<open>
  Claim C8. When neither \<^verbatim>\<open>files\<close> nor \<^verbatim>\<open>images\<close> holds an element,
  \<^verbatim>\<open>_set_images\<close> returns normally, \<^verbatim>\<open>self.images\<close> is the empty list and one
  warning is emitted; in every other case \<^verbatim>\<open>_set_images\<close> emits no warning, and
  neither does the rest of \<^verbatim>\<open>__call__\<close>.
\<close>

theorem set_images_neither:
  "(\<not> truthy (files inp) \<and> \<not> truthy (images inp) \<longrightarrow>
      set_images s inp
        = (Inr (), s\<lparr>self_images := Some [],
                      warnings := warnings s @ [''`files` and `images` not specified.'']\<rparr>))
   \<and> (truthy (files inp) \<or> truthy (images inp) \<longrightarrow>
        warnings (snd (set_images s inp)) = warnings s
        \<and> warnings (snd (call ext s inp)) = warnings s)"
  by (simp add: set_images_warnings call_warnings) (simp add: set_images_def)

theorem set_images_neither_witness:
  "\<not> truthy (files \<lparr>files = None, images = Some [], kwargs = no_kwargs\<rparr>)
   \<and> \<not> truthy (images \<lparr>files = None, images = Some [], kwargs = no_kwargs\<rparr>)
   \<and> set_images init_state \<lparr>files = None, images = Some [], kwargs = no_kwargs\<rparr>
       = (Inr (), init_state\<lparr>self_images := Some [],
                             warnings := [''`files` and `images` not specified.'']\<rparr>)
   \<and> truthy (files \<lparr>files = Some [''a.png''], images = None, kwargs = no_kwargs\<rparr>)
   \<and> warnings (snd (set_images init_state
                      \<lparr>files = Some [''a.png''], images = None, kwargs = no_kwargs\<rparr>)) = []"
  using set_images_neither
          [where inp = "\<lparr>files = None, images = Some [], kwargs = no_kwargs\<rparr>" and s = init_state]
        set_images_neither
          [where inp = "\<lparr>files = Some [''a.png''], images = None, kwargs = no_kwargs\<rparr>"
             and s = init_state and ext = example_model]
  by (simp add: init_state_def)

text \<open>
  Claim C9. Whatever \<^verbatim>\<open>files\<close> and \<^verbatim>\<open>images\<close> are, and whether
  \<^verbatim>\<open>_set_images\<close> returns or raises, \<^verbatim>\<open>self.images\<close> is bound to a list
  afterwards, never to \<^verbatim>\<open>None\<close>; so \<^verbatim>\<open>__call__\<close> never raises the
  \<^verbatim>\<open>ValueError\<close> "`self.images` should not be None".
\<close>

theorem set_images_never_None:
  "self_images (snd (set_images s inp)) \<noteq> None
   \<and> fst (call ext s inp) \<noteq> Inl ValueError_images_None"
proof
  show "self_images (snd (set_images s inp)) \<noteq> None" by (rule set_images_bound)
  show "fst (call ext s inp) \<noteq> Inl ValueError_images_None"
  proof
    assume "fst (call ext s inp) = Inl ValueError_images_None"
    from call_errors[OF this] show False by auto
  qed
qed

lemma set_images_state_independent:
  assumes "truthy (images inp) \<or> \<not> truthy (files inp)"
  shows "fst (set_images s inp) = fst (set_images s' inp)
         \<and> self_images (snd (set_images s inp)) = self_images (snd (set_images s' inp))"
  using assms by (auto simp: set_images_def Let_def split: prod.splits option.splits)

lemma set_images_same_ids:
  assumes "files inp = Some fs" and "\<forall>i<length fs. nanoid s i = nanoid s' i"
  shows "fst (set_images s inp) = fst (set_images s' inp)
         \<and> self_images (snd (set_images s inp)) = self_images (snd (set_images s' inp))"
  using assms
  by (auto simp: set_images_def Let_def synthesize_eq split: prod.splits option.splits)

lemma update_images_state_independent:
  assumes "self_images s = self_images s'"
  shows "fst (update_images s inp m) = fst (update_images s' inp m)
         \<and> self_images (snd (update_images s inp m)) = self_images (snd (update_images s' inp m))"
  using assms by (auto simp: update_images_def split: option.splits sum.splits)

lemma call_update_images_state_independent:
  assumes "self_images s = self_images s'"
  shows "fst (call_update_images s inp m) = fst (call_update_images s' inp m)
         \<and> self_images (snd (call_update_images s inp m))
             = self_images (snd (call_update_images s' inp m))"
  using update_images_state_independent[OF assms, of inp m] assms
  by (simp add: call_update_images_def)

lemma run_stages_state_independent:
  "self_images s = self_images s' \<Longrightarrow> run_stages ext s d m = run_stages ext s' d m"
  by (simp add: run_stages_def)

lemma call_state_independent:
  assumes r: "fst (set_images s inp) = fst (set_images s' inp)"
    and i: "self_images (snd (set_images s inp)) = self_images (snd (set_images s' inp))"
  shows "fst (call ext s inp) = fst (call ext s' inp)"
proof -
  obtain r1 s1 where s1: "set_images s inp = (r1, s1)" by (cases "set_images s inp")
  obtain r1' s1' where s1': "set_images s' inp = (r1', s1')" by (cases "set_images s' inp")
  from r i s1 s1' have eq: "r1' = r1" "self_images s1' = self_images s1" by simp_all
  show ?thesis
  proof (cases r1)
    case (Inl e1)
    with s1 s1' eq show ?thesis by (simp add: call_def)
  next
    case (Inr u)
    from s1 set_images_bound[of s inp] obtain imgs where imgs: "self_images s1 = Some imgs"
      by auto
    show ?thesis
    proof (cases "list_all (model_validate ext) imgs")
      case False
      with s1 s1' eq Inr imgs show ?thesis by (simp add: call_def)
    next
      case True
      show ?thesis
      proof (cases "data_reader ext inp")
        case (Inl m)
        with s1 s1' eq Inr imgs True show ?thesis by (simp add: call_def)
      next
        case rd: (Inr t)
        obtain d mf md where t: "t = (d, mf, md)" by (cases t)
        show ?thesis
        proof (cases "mf = MNotSequence")
          case True
          with s1 s1' eq Inr imgs \<open>list_all (model_validate ext) imgs\<close> rd t show ?thesis
            by (simp add: call_def)
        next
          case False
          obtain r2 s2 where s2: "call_update_images s1 inp (as_optional mf) = (r2, s2)"
            by (cases "call_update_images s1 inp (as_optional mf)")
          obtain r2' s2' where s2': "call_update_images s1' inp (as_optional mf) = (r2', s2')"
            by (cases "call_update_images s1' inp (as_optional mf)")
          from call_update_images_state_independent[OF eq(2), of inp "as_optional mf"] s2 s2'
          have eq2: "r2' = r2" "self_images s2' = self_images s2" by simp_all
          have l: "fst (call ext s inp) = (case r2 of Inl e \<Rightarrow> Inl e | Inr u \<Rightarrow> run_stages ext s2 d md)"
            using s1 Inr imgs \<open>list_all (model_validate ext) imgs\<close> rd t False s2
            by (simp add: call_def split: sum.splits)
          have r: "fst (call ext s' inp) = (case r2 of Inl e \<Rightarrow> Inl e | Inr u \<Rightarrow> run_stages ext s2' d md)"
            using s1' eq Inr imgs \<open>list_all (model_validate ext) imgs\<close> rd t False s2' eq2
            by (simp add: call_def split: sum.splits)
          show ?thesis
            unfolding l r using run_stages_state_independent[OF eq2(2), of ext d md]
            by (cases r2) simp_all
        qed
      qed
    qed
  qed
qed

lemma run_stages_result:
  "run_stages ext s d m = Inr result \<Longrightarrow>
     \<exists>out. output_formatter ext out (self_images s) (categories ext) (regressions ext) = Inr result"
  unfolding run_stages_def
  by (cases "preprocess ext d"; cases "inference ext (projr (preprocess ext d))";
      cases "postprocess ext (projr (inference ext (projr (preprocess ext d)))) m";
      cases "output_formatter ext (projr (postprocess ext (projr (inference ext (projr (preprocess ext d)))) m))
               (self_images s) (categories ext) (regressions ext)")
     auto

lemma call_result:
  assumes a: "fst (call ext s inp) = Inr result"
  shows "\<exists>d md. run_stages ext (snd (call ext s inp)) d md = Inr result"
proof -
  obtain r1 s1 where s1: "set_images s inp = (r1, s1)" by (cases "set_images s inp")
  show ?thesis
  proof (cases r1)
    case (Inl e1)
    with a s1 show ?thesis by (simp add: call_def)
  next
    case (Inr u)
    from s1 set_images_bound[of s inp] obtain imgs where imgs: "self_images s1 = Some imgs"
      by auto
    show ?thesis
    proof (cases "list_all (model_validate ext) imgs")
      case False
      with a s1 Inr imgs show ?thesis by (simp add: call_def)
    next
      case True
      show ?thesis
      proof (cases "data_reader ext inp")
        case (Inl m)
        with a s1 Inr imgs True show ?thesis by (simp add: call_def)
      next
        case rd: (Inr t)
        obtain d mf md where t: "t = (d, mf, md)" by (cases t)
        show ?thesis
        proof (cases "mf = MNotSequence")
          case True
          with a s1 Inr imgs \<open>list_all (model_validate ext) imgs\<close> rd t show ?thesis
            by (simp add: call_def)
        next
          case False
          obtain r2 s2 where s2: "call_update_images s1 inp (as_optional mf) = (r2, s2)"
            by (cases "call_update_images s1 inp (as_optional mf)")
          show ?thesis
          proof (cases r2)
            case (Inl e2)
            with a s1 Inr imgs \<open>list_all (model_validate ext) imgs\<close> rd t False s2
            show ?thesis by (simp add: call_def)
          next
            case (Inr u2)
            with s1 \<open>r1 = Inr u\<close> imgs \<open>list_all (model_validate ext) imgs\<close> rd t False s2
            have c: "call ext s inp = (run_stages ext s2 d md, s2)" by (simp add: call_def)
            with a have "run_stages ext (snd (call ext s inp)) d md = Inr result" by simp
            then show ?thesis by blast
          qed
        qed
      qed
    qed
  qed
qed

lemma list_images_valid: "schema_valid (list_images imgs)"
  by (simp add: schema_valid_def list_images_def unlinked_def list_all_iff)

text \<open>
  Claim C3, as amended. \<^verbatim>\<open>__call__\<close> either raises or returns exactly what
  \<^verbatim>\<open>output_formatter\<close> returned for the final \<^verbatim>\<open>self.images\<close> and the model's
  categories and regressions; it checks nothing in that value itself. So the returned
  output is schema-valid (every referenced category, regression and image id resolves)
  whenever the formatter of the model only produces schema-valid outputs.
\<close>

theorem call_returns_formatter_output:
  assumes "fst (call ext s inp) = Inr result"
  shows "(\<exists>out. output_formatter ext out (self_images (snd (call ext s inp)))
                  (categories ext) (regressions ext) = Inr result)
       \<and> ((\<forall>out imgs r. output_formatter ext out imgs (categories ext) (regressions ext) = Inr r
                \<longrightarrow> schema_valid r) \<longrightarrow> schema_valid result)"
proof -
  from call_result[OF assms] obtain d md where
    "run_stages ext (snd (call ext s inp)) d md = Inr result" by blast
  from run_stages_result[OF this] show ?thesis by blast
qed

theorem call_returns_formatter_output_witness:
  "fst (call example_model init_state
          \<lparr>files = Some [''b.png'', ''a.png''], images = Some [img ''a'' 0, img ''b'' 1],
           kwargs = no_kwargs\<rparr>)
     = Inr (list_images (Some [img ''b'' 1, img ''a'' 0]))
   \<and> schema_valid (list_images (Some [img ''b'' 1, img ''a'' 0]))"
proof -
  have h1: "fst (call example_model init_state
          \<lparr>files = Some [''b.png'', ''a.png''], images = Some [img ''a'' 0, img ''b'' 1],
           kwargs = no_kwargs\<rparr>)
     = Inr (list_images (Some [img ''b'' 1, img ''a'' 0]))"
    by (simp add: call_def set_images_def call_update_images_def update_images_def no_kwargs_def
        run_stages_def example_model_def
          matches_def replace_slash_def sublist_code img_def)
  have h2: "\<forall>out imgs r.
      output_formatter example_model out imgs (categories example_model) (regressions example_model)
        = Inr r \<longrightarrow> schema_valid r"
    by (auto simp: example_model_def list_images_valid)
  from call_returns_formatter_output[OF h1] h2
  have "schema_valid (list_images (Some [img ''b'' 1, img ''a'' 0]))" by blast
  with h1 show ?thesis by simp
qed

text \<open>
  Without the condition on the formatter the claim fails: a model whose formatter adds
  an annotation on an image id that is not in its \<^verbatim>\<open>images\<close> gets that output back
  from \<^verbatim>\<open>__call__\<close>, unchecked.
\<close>

theorem call_schema_valid_counterexample:
  "fst (call dangling_model init_state
          \<lparr>files = Some [''a.png''], images = Some [img ''a'' 0], kwargs = no_kwargs\<rparr>)
     = Inr ((list_images (Some [img ''a'' 0]))
              \<lparr>out_annotations := [\<lparr>annotation_id = ''a0'', annotation_image_id = ''missing''\<rparr>]\<rparr>)
   \<and> \<not> schema_valid ((list_images (Some [img ''a'' 0]))
              \<lparr>out_annotations := [\<lparr>annotation_id = ''a0'', annotation_image_id = ''missing''\<rparr>]\<rparr>)"
  by (simp add: call_def set_images_def call_update_images_def update_images_def no_kwargs_def
        run_stages_def example_model_def
        dangling_model_def matches_def replace_slash_def sublist_code img_def
        schema_valid_def list_images_def unlinked_def)

text \<open>
  Claim C7, as amended. With deterministic extension points, two invocations on the
  same \<^verbatim>\<open>files\<close>, \<^verbatim>\<open>images\<close> and extra inputs give the same result (or raise the
  same error) whenever \<^verbatim>\<open>images\<close> is non-empty or \<^verbatim>\<open>files\<close> is empty, whatever
  state the earlier invocation left behind and whatever \<^verbatim>\<open>generate()\<close> returns. With
  \<^verbatim>\<open>files\<close> only, they give the same result whenever \<^verbatim>\<open>generate()\<close> returns the
  same identifiers, one per file, in both invocations.
\<close>

theorem call_deterministic_given_images:
  assumes "truthy (images inp) \<or> \<not> truthy (files inp)
           \<or> (files inp = Some fs \<and> (\<forall>i<length fs. nanoid s i = nanoid s' i))"
  shows "fst (call ext s inp) = fst (call ext s' inp)"
proof (cases "truthy (images inp) \<or> \<not> truthy (files inp)")
  case True
  from set_images_state_independent[OF True, of s s'] show ?thesis
    by (intro call_state_independent) simp_all
next
  case False
  with assms have "files inp = Some fs" and "\<forall>i<length fs. nanoid s i = nanoid s' i"
    by simp_all
  from set_images_same_ids[OF this] show ?thesis
    by (intro call_state_independent) simp_all
qed

theorem call_deterministic_given_images_witness:
  "truthy (images \<lparr>files = Some [''b.png'', ''a.png''], images = Some [img ''a'' 0, img ''b'' 1],
                   kwargs = no_kwargs\<rparr>)
   \<and> fst (call example_model init_state
          \<lparr>files = Some [''b.png'', ''a.png''], images = Some [img ''a'' 0, img ''b'' 1],
           kwargs = no_kwargs\<rparr>)
     = fst (call example_model
          (snd (call example_model init_state
             \<lparr>files = Some [''b.png'', ''a.png''], images = Some [img ''a'' 0, img ''b'' 1],
              kwargs = no_kwargs\<rparr>))
          \<lparr>files = Some [''b.png'', ''a.png''], images = Some [img ''a'' 0, img ''b'' 1],
           kwargs = no_kwargs\<rparr>)
   \<and> files \<lparr>files = Some [''a.png''], images = None, kwargs = no_kwargs\<rparr> = Some [''a.png'']
   \<and> nanoid init_state 0
       = nanoid (init_state\<lparr>self_images := Some [img ''old'' 0], warnings := [''earlier'']\<rparr>) 0
   \<and> fst (call example_model init_state
          \<lparr>files = Some [''a.png''], images = None, kwargs = no_kwargs\<rparr>)
     = fst (call example_model
          (init_state\<lparr>self_images := Some [img ''old'' 0], warnings := [''earlier'']\<rparr>)
          \<lparr>files = Some [''a.png''], images = None, kwargs = no_kwargs\<rparr>)"
  using call_deterministic_given_images
    [where inp = "\<lparr>files = Some [''b.png'', ''a.png''], images = Some [img ''a'' 0, img ''b'' 1],
                   kwargs = no_kwargs\<rparr>"
       and ext = example_model and s = init_state
       and s' = "snd (call example_model init_state
             \<lparr>files = Some [''b.png'', ''a.png''], images = Some [img ''a'' 0, img ''b'' 1],
              kwargs = no_kwargs\<rparr>)"]
    call_deterministic_given_images
    [where inp = "\<lparr>files = Some [''a.png''], images = None, kwargs = no_kwargs\<rparr>"
       and fs = "[''a.png'']"
       and ext = example_model and s = init_state
       and s' = "init_state\<lparr>self_images := Some [img ''old'' 0], warnings := [''earlier'']\<rparr>"]
  by simp

text \<open>
  Nothing makes \<^verbatim>\<open>generate()\<close> return the same identifiers twice. With \<^verbatim>\<open>files\<close>
  only, a second invocation on the same input draws the next identifier, and the two
  outputs differ.
\<close>

theorem call_deterministic_counterexample:
  "fst (call example_model init_state \<lparr>files = Some [''a.png''], images = None, kwargs = no_kwargs\<rparr>)
     = Inr (list_images (Some [\<lparr>image_id = ''id'', index = 0, file_name = ''a.png'',
                                 category_ids = None, image_regressions = None\<rparr>]))
   \<and> fst (call example_model
            (snd (call example_model init_state
                    \<lparr>files = Some [''a.png''], images = None, kwargs = no_kwargs\<rparr>))
            \<lparr>files = Some [''a.png''], images = None, kwargs = no_kwargs\<rparr>)
     = Inr (list_images (Some [\<lparr>image_id = ''id+'', index = 0, file_name = ''a.png'',
                                 category_ids = None, image_regressions = None\<rparr>]))
   \<and> list_images (Some [\<lparr>image_id = ''id'', index = 0, file_name = ''a.png'',
                          category_ids = None, image_regressions = None\<rparr>])
     \<noteq> list_images (Some [\<lparr>image_id = ''id+'', index = 0, file_name = ''a.png'',
                          category_ids = None, image_regressions = None\<rparr>])"
  by (simp add: call_def set_images_def call_update_images_def update_images_def no_kwargs_def
        run_stages_def example_model_def
        generate_def init_state_def ids_def list_images_def unlinked_def)

section \<open>The input data model: properties\<close>

lemma dict_get_falsy:
  "data key \<in> {None, Some PyNone, Some (PyImages []), Some (PyFiles [])}
     \<Longrightarrow> \<not> py_bool tv (dict_get data key)"
  by (auto simp: dict_get_def)

lemma check_images_files_iff:
  "check_images_files tv data = Inl AssertionError
     \<longleftrightarrow> \<not> py_bool tv (dict_get data ''images'') \<and> \<not> py_bool tv (dict_get data ''files'')"
  by (simp add: check_images_files_def Let_def)

lemma check_images_files_Inr:
  "check_images_files tv data = Inr d
     \<longleftrightarrow> d = data \<and> (py_bool tv (dict_get data ''images'') \<or> py_bool tv (dict_get data ''files''))"
  by (auto simp: check_images_files_def Let_def)

text \<open>
  Claim C10. When each of \<^verbatim>\<open>images\<close> and \<^verbatim>\<open>files\<close> is missing, \<^verbatim>\<open>None\<close> or an
  empty sequence, the validator raises its \<^verbatim>\<open>AssertionError\<close> and the construction
  fails with a \<^verbatim>\<open>ValidationError\<close>; every input that is
  constructed has a non-empty \<^verbatim>\<open>images\<close> or a non-empty \<^verbatim>\<open>files\<close>; and a field
  under any other name does not change the verdict of the validator.
\<close>

theorem construct_needs_images_or_files:
  "(data ''images'' \<in> {None, Some PyNone, Some (PyImages []), Some (PyFiles [])}
      \<and> data ''files'' \<in> {None, Some PyNone, Some (PyImages []), Some (PyFiles [])}
      \<longrightarrow> check_images_files tv data = Inl AssertionError
          \<and> construct tv data = Inl ValidationError)
   \<and> (case construct tv data of
         Inl e \<Rightarrow> True
       | Inr m \<Rightarrow> truthy (model_images m) \<or> truthy (model_files m))
   \<and> (key \<noteq> ''images'' \<and> key \<noteq> ''files'' \<longrightarrow>
         (check_images_files tv (data(key \<mapsto> v)) = Inl AssertionError
            \<longleftrightarrow> check_images_files tv data = Inl AssertionError))"
proof (intro conjI impI)
  assume a: "data ''images'' \<in> {None, Some PyNone, Some (PyImages []), Some (PyFiles [])}
      \<and> data ''files'' \<in> {None, Some PyNone, Some (PyImages []), Some (PyFiles [])}"
  then show c: "check_images_files tv data = Inl AssertionError"
    using dict_get_falsy[of data "''images''" tv] dict_get_falsy[of data "''files''" tv]
    by (simp add: check_images_files_iff)
  then show "construct tv data = Inl ValidationError" by (simp add: construct_def)
next
  show "case construct tv data of Inl e \<Rightarrow> True
        | Inr m \<Rightarrow> truthy (model_images m) \<or> truthy (model_files m)"
  proof (cases "check_images_files tv data")
    case (Inl e)
    then show ?thesis by (simp add: construct_def)
  next
    case (Inr d)
    then have d: "d = data"
      and t: "py_bool tv (dict_get data ''images'') \<or> py_bool tv (dict_get data ''files'')"
      by (simp_all add: check_images_files_Inr)
    show ?thesis
      using t Inr d
      by (cases "dict_get data ''images''"; cases "dict_get data ''files''")
         (auto simp: construct_def)
  qed
next
  assume "key \<noteq> ''images'' \<and> key \<noteq> ''files''"
  then show "check_images_files tv (data(key \<mapsto> v)) = Inl AssertionError
            \<longleftrightarrow> check_images_files tv data = Inl AssertionError"
    by (auto simp: check_images_files_iff dict_get_def)
qed

theorem construct_needs_images_or_files_witness:
  "(Map.empty :: string \<rightharpoonup> (string, unit) py_value) ''images''
       \<in> {None, Some PyNone, Some (PyImages []), Some (PyFiles [])}
   \<and> (Map.empty :: string \<rightharpoonup> (string, unit) py_value) ''files''
       \<in> {None, Some PyNone, Some (PyImages []), Some (PyFiles [])}
   \<and> construct (\<lambda>u. True) (Map.empty :: string \<rightharpoonup> (string, unit) py_value) = Inl ValidationError
   \<and> ''threshold'' \<noteq> ''images'' \<and> ''threshold'' \<noteq> ''files''
   \<and> check_images_files (\<lambda>u. True)
        ((Map.empty :: string \<rightharpoonup> (string, unit) py_value)(''threshold'' \<mapsto> PyAny ()))
       = Inl AssertionError
   \<and> model_images (projr (construct (\<lambda>u. True)
        ((Map.empty :: string \<rightharpoonup> (string, unit) py_value)(''images'' \<mapsto> PyImages [img ''a'' 0]))))
       = Some [img ''a'' 0]"
  using construct_needs_images_or_files
          [where data = "Map.empty :: string \<rightharpoonup> (string, unit) py_value"
             and tv = "\<lambda>u. True" and key = "''threshold''" and v = "PyAny ()"]
        construct_needs_images_or_files
          [where data = "(Map.empty :: string \<rightharpoonup> (string, unit) py_value)
                            (''images'' \<mapsto> PyImages [img ''a'' 0])"
             and tv = "\<lambda>u. True" and key = "''threshold''" and v = "PyAny ()"]
  by (simp add: construct_def check_images_files_def dict_get_def)

end
